theory Spec2Isabelle
  imports Complex_Main "HOL-Library.Sublist"
begin

section \<open>JavaScript string primitives used by the sources\<close>

text \<open>
  Strings are modelled as lists of 8-bit characters: the code units below 256, which
  cover the names the two source files handle (module paths, phase names, environment
  variable names). Each primitive below follows the ECMAScript definition of the method
  of the same name on that range.
\<close>

text \<open>
  \<open>toLowerCase\<close> on one character: the letters A to Z, and the capital letters of
  Latin-1 (all of 0xC0 to 0xDE but the multiplication sign 0xD7), go to the character
  32 places further.
\<close>

definition toLowerCase_char :: "char \<Rightarrow> char" where
  "toLowerCase_char c =
     (case map_of (zip (''ABCDEFGHIJKLMNOPQRSTUVWXYZ'' @
                 [CHR 0xC0, CHR 0xC1, CHR 0xC2, CHR 0xC3, CHR 0xC4, CHR 0xC5, CHR 0xC6, CHR 0xC7,
                  CHR 0xC8, CHR 0xC9, CHR 0xCA, CHR 0xCB, CHR 0xCC, CHR 0xCD, CHR 0xCE, CHR 0xCF,
                  CHR 0xD0, CHR 0xD1, CHR 0xD2, CHR 0xD3, CHR 0xD4, CHR 0xD5, CHR 0xD6, CHR 0xD8,
                  CHR 0xD9, CHR 0xDA, CHR 0xDB, CHR 0xDC, CHR 0xDD, CHR 0xDE])
               (''abcdefghijklmnopqrstuvwxyz'' @
                 [CHR 0xE0, CHR 0xE1, CHR 0xE2, CHR 0xE3, CHR 0xE4, CHR 0xE5, CHR 0xE6, CHR 0xE7,
                  CHR 0xE8, CHR 0xE9, CHR 0xEA, CHR 0xEB, CHR 0xEC, CHR 0xED, CHR 0xEE, CHR 0xEF,
                  CHR 0xF0, CHR 0xF1, CHR 0xF2, CHR 0xF3, CHR 0xF4, CHR 0xF5, CHR 0xF6, CHR 0xF8,
                  CHR 0xF9, CHR 0xFA, CHR 0xFB, CHR 0xFC, CHR 0xFD, CHR 0xFE])) c of
        None \<Rightarrow> c
      | Some l \<Rightarrow> l)"

definition toLowerCase :: "string \<Rightarrow> string" where
  "toLowerCase s = map toLowerCase_char s"

text \<open>\<open>s.startsWith(p)\<close>\<close>

definition startsWith :: "string \<Rightarrow> string \<Rightarrow> bool" where
  "startsWith s p = prefix p s"

text \<open>\<open>s.indexOf(pat)\<close>: the least position at which \<open>pat\<close> occurs in \<open>s\<close>, or -1.\<close>

fun indexOf :: "string \<Rightarrow> string \<Rightarrow> int" where
  "indexOf [] pat = (if pat = [] then 0 else -1)"
| "indexOf (c # s) pat =
     (if prefix pat (c # s) then 0
      else (let i = indexOf s pat in if i < 0 then -1 else i + 1))"

text \<open>\<open>s.split(sep)\<close> for a one-character separator: never the empty array.\<close>

fun split :: "string \<Rightarrow> char \<Rightarrow> string list" where
  "split [] sep = [[]]"
| "split (c # s) sep =
     (if c = sep then [] # split s sep
      else (case split s sep of [] \<Rightarrow> [[c]] | x # xs \<Rightarrow> (c # x) # xs))"

text \<open>\<open>a.splice(start)\<close> removes the elements from \<open>start\<close> on and returns the removed ones.\<close>

definition splice_js :: "'a list \<Rightarrow> nat \<Rightarrow> 'a list" where
  "splice_js a start = drop start a"

text \<open>\<open>a.join(sep)\<close>\<close>

fun join :: "string list \<Rightarrow> string \<Rightarrow> string" where
  "join [] sep = []"
| "join [x] sep = x"
| "join (x # y # ys) sep = x @ sep @ join (y # ys) sep"

text \<open>\<open>s.replace(pat, rep)\<close> with a string pattern: only the first occurrence is replaced.\<close>

fun replace :: "string \<Rightarrow> string \<Rightarrow> string \<Rightarrow> string" where
  "replace [] pat rep = (if pat = [] then rep else [])"
| "replace (c # s) pat rep =
     (if prefix pat (c # s) then rep @ drop (length pat) (c # s)
      else c # replace s pat rep)"


section \<open>flightcheck/index.js: the data the runner handles\<close>

text \<open>
  The payload of a \<open>cycle:start\<close> event (the \<open>data\<close> parameter of \<open>runHooks\<close>): three
  database documents, of which the code reads \<open>_id\<close> and \<open>project.name\<close>; \<open>release\<close> may
  be null.
\<close>

record project_doc =
  project_id :: string
  project_name :: string

record job =
  repo :: string
  tag :: string
  project :: project_doc
  release :: "string option"
  cycle :: string

text \<open>
  \<open>release\<close> and \<open>cycle\<close> hold the \<open>_id\<close> of the respective document, the only field
  of them the code reads.
\<close>

record issue_doc =
  title :: string
  body :: string

text \<open>What one hook's \<open>run()\<close> resolves with (\<open>pkg[i]\<close> in the source).\<close>

record 'v partial_result =
  errors :: nat
  warnings :: nat
  information :: "string \<rightharpoonup> 'v"
  issue :: "issue_doc option"

text \<open>The accumulator \<open>obj\<close> of line 45, and the object \<open>runHooks\<close> resolves with.\<close>

record 'v obj =
  obj_errors :: nat
  obj_warnings :: nat
  obj_information :: "string \<rightharpoonup> 'v"
  obj_issues :: "issue_doc list"

record 'v report = "'v obj" +
  report_cycle :: string
  report_project :: string
  report_release :: "string option"

subsection \<open>Promises\<close>

text \<open>
  A promise is described by how it ends: fulfilled with a value or rejected with a reason
  at a logical instant (a natural number, counted from the moment the hooks are started),
  or never settled. Reactions registered with \<open>then\<close> and \<open>catch\<close> run at the instant
  of the settlement they react to.
\<close>

type_synonym err = string

datatype 'a promise = Fulfilled nat 'a | Rejected nat err | Pending

text \<open>
  \<open>Promise.all\<close>: rejected as soon as one input is rejected, with that input's reason
  (the earliest rejection; among simultaneous ones the first in the list); otherwise
  fulfilled with all the values, in the order of the inputs, once the last input is
  fulfilled; otherwise never settled.
\<close>

fun first_rejection :: "'a promise list \<Rightarrow> (nat \<times> err) option" where
  "first_rejection [] = None"
| "first_rejection (Rejected t e # ps) =
     (case first_rejection ps of
        None \<Rightarrow> Some (t, e)
      | Some (t', e') \<Rightarrow> if t' < t then Some (t', e') else Some (t, e))"
| "first_rejection (Fulfilled t v # ps) = first_rejection ps"
| "first_rejection (Pending # ps) = first_rejection ps"

fun all_values :: "'a promise list \<Rightarrow> (nat \<times> 'a list) option" where
  "all_values [] = Some (0, [])"
| "all_values (Fulfilled t v # ps) =
     (case all_values ps of
        None \<Rightarrow> None
      | Some (t', vs) \<Rightarrow> Some (max t t', v # vs))"
| "all_values (Rejected t e # ps) = None"
| "all_values (Pending # ps) = None"

definition Promise_all :: "'a promise list \<Rightarrow> 'a list promise" where
  "Promise_all ps =
     (case first_rejection ps of
        Some (t, e) \<Rightarrow> Rejected t e
      | None \<Rightarrow> (case all_values ps of
                   Some (t, vs) \<Rightarrow> Fulfilled t vs
                 | None \<Rightarrow> Pending))"

text \<open>\<open>p.then(f)\<close> for a callback that returns a plain value and does not throw.\<close>

definition then_promise :: "'a promise \<Rightarrow> ('a \<Rightarrow> 'b) \<Rightarrow> 'b promise" where
  "then_promise p f =
     (case p of
        Fulfilled t v \<Rightarrow> Fulfilled t (f v)
      | Rejected t e \<Rightarrow> Rejected t e
      | Pending \<Rightarrow> Pending)"

subsection \<open>Logging\<close>

text \<open>
  The calls of \<open>log\<close> the file makes, in order: the level and what is logged. The two
  debug messages are kept by their parts, since \<open>log.lang.s\<close> that formats the second
  is not part of the file.
\<close>

datatype log_message =
    Starting_flightcheck_on string
  | Found_errors_in nat string
  | Error_running_tests_for string
  | Thrown err

datatype log_entry = Debug log_message | Warn log_message | Error log_message

text \<open>
  Modelled from the spec: \<open>log.error\<close> (module \<open>~/lib/log\<close>) is not in the sources. The
  spec says a rejection is only logged and the run continues with no partial results, so
  the call records the error and returns \<open>undefined\<close>, here \<open>None\<close>. \<open>catch_log\<close> is
  \<open>.catch((err) => log.error(err))\<close>: a fulfilled promise passes through, a rejected one
  becomes fulfilled with the handler's return value.
\<close>

definition catch_log :: "'a promise \<Rightarrow> 'a option promise \<times> log_entry list" where
  "catch_log p =
     (case p of
        Fulfilled t v \<Rightarrow> (Fulfilled t (Some v), [])
      | Rejected t e \<Rightarrow> (Fulfilled t None, [Error (Thrown e)])
      | Pending \<Rightarrow> (Pending, []))"

subsection \<open>Hook modules and their discovery\<close>

text \<open>
  A hook module is a class; \<open>new Hook(data).run()\<close> either throws or returns the promise
  of a partial result.
\<close>

datatype 'v started = Throws err | Returns "'v partial_result promise"

type_synonym 'v Hook = "job \<Rightarrow> 'v started"

text \<open>
  The directory \<open>flightcheck\<close> as \<open>fsHelper.walk\<close> finds it: unreadable, or its files, each
  with its path relative to the directory and the module it holds.
\<close>

datatype 'm directory = Unreadable err | Files "(string \<times> 'm) list"

text \<open>
  Modelled from the spec: \<open>fsHelper.walk\<close> (module \<open>~/lib/helpers/fs\<close>) is not in the
  sources. The spec describes it as the traversal primitive through which discovery
  selects modules, and says discovery fails when the root is missing or unreadable: the
  walk keeps, in traversal order, the modules of the files on which the callback returns
  true.
\<close>

definition walk :: "'m directory \<Rightarrow> (string \<Rightarrow> bool) \<Rightarrow> err + 'm list" where
  "walk dir flt =
     (case dir of
        Unreadable e \<Rightarrow> Inl e
      | Files fs \<Rightarrow> Inr (map snd (filter (\<lambda>(path, m). flt path) fs)))"

text \<open>The callback of lines 34 to 37.\<close>

definition hook_filter :: "string \<Rightarrow> string \<Rightarrow> bool" where
  "hook_filter test path =
     (if indexOf path ''/'' = -1 then False
      else indexOf path (toLowerCase test @ ''.js'') \<noteq> 0)"

text \<open>
  \<open>hooks.map((Hook) => new Hook(data).run())\<close>: the hooks are started in order, and the
  first that throws ends the map.
\<close>

fun start_hooks :: "job \<Rightarrow> 'v Hook list \<Rightarrow> err + 'v partial_result promise list" where
  "start_hooks data [] = Inr []"
| "start_hooks data (Hook # hooks) =
     (case Hook data of
        Throws e \<Rightarrow> Inl e
      | Returns p \<Rightarrow> (case start_hooks data hooks of
                       Inl e \<Rightarrow> Inl e
                     | Inr ps \<Rightarrow> Inr (p # ps)))"

subsection \<open>runHooks\<close>

text \<open>The body of the \<open>for\<close> loop, lines 48 to 51.\<close>

definition add_result :: "'v obj \<Rightarrow> 'v partial_result \<Rightarrow> 'v obj" where
  "add_result acc r =
     acc\<lparr> obj_errors := errors r + obj_errors acc,
          obj_warnings := warnings r + obj_warnings acc,
          obj_information := obj_information acc ++ information r,
          obj_issues := (case issue r of
                           None \<Rightarrow> obj_issues acc
                         | Some i \<Rightarrow> obj_issues acc @ [i]) \<rparr>"

text \<open>
  The first \<open>then\<close> callback, lines 44 to 55. \<open>for (const i in pkg)\<close> visits the indices
  of an array in ascending order and nothing when \<open>pkg\<close> is \<open>undefined\<close>.
\<close>

definition collect :: "'v partial_result list option \<Rightarrow> 'v obj" where
  "collect pkg =
     (let obj = \<lparr> obj_errors = 0, obj_warnings = 0, obj_information = Map.empty,
                  obj_issues = [] \<rparr>
      in case pkg of
           None \<Rightarrow> obj
         | Some rs \<Rightarrow> foldl add_result obj rs)"

text \<open>The second \<open>then\<close> callback, lines 56 to 62.\<close>

definition stamp :: "job \<Rightarrow> 'v obj \<Rightarrow> 'v report" where
  "stamp data pkg =
     \<lparr> obj_errors = obj_errors pkg, obj_warnings = obj_warnings pkg,
       obj_information = obj_information pkg, obj_issues = obj_issues pkg,
       report_cycle = cycle data, report_project = project_id (project data),
       report_release = release data \<rparr>"

text \<open>Lines 42 to 62: from the promises of the started hooks to the promise of the report.\<close>

definition settle :: "job \<Rightarrow> 'v partial_result promise list \<Rightarrow> 'v report promise \<times> log_entry list" where
  "settle data tests =
     (let (p, logged) = catch_log (Promise_all tests)
      in (then_promise (then_promise p collect) (stamp data), logged))"

text \<open>
  The async function as a whole: a failed walk and a hook that throws while it is
  started reject the returned promise.
\<close>

definition runHooks :: "'v Hook directory \<Rightarrow> job \<Rightarrow> string \<Rightarrow> 'v report promise \<times> log_entry list" where
  "runHooks flightcheck data test =
     (case walk flightcheck (hook_filter test) of
        Inl e \<Rightarrow> (Rejected 0 e, [])
      | Inr hooks \<Rightarrow> (case start_hooks data hooks of
                        Inl e \<Rightarrow> (Rejected 0 e, [])
                      | Inr tests \<Rightarrow> settle data tests))"

subsection \<open>The handler of cycle:start\<close>

text \<open>What the process has done after an event: the messages sent on the connection and the log.\<close>

record 'v effects =
  sent :: "(string \<times> string \<times> 'v report) list"
  logged :: "log_entry list"

definition on_cycle_start :: "'v Hook directory \<Rightarrow> job \<Rightarrow> 'v effects \<Rightarrow> 'v effects" where
  "on_cycle_start flightcheck data s =
     (let s1 = s\<lparr> logged := logged s @ [Debug (Starting_flightcheck_on (project_name (project data)))] \<rparr>;
          (p, l) = runHooks flightcheck data ''pre'';
          s2 = s1\<lparr> logged := logged s1 @ l \<rparr>
      in case p of
           Fulfilled t pkg \<Rightarrow>
             s2\<lparr> sent := sent s2 @ [(''houston'', ''cycle:finished'', pkg)],
                 logged := logged s2 @ [Debug (Found_errors_in (obj_errors pkg) (project_name (project data)))] \<rparr>
         | Rejected t e \<Rightarrow>
             s2\<lparr> logged := logged s2 @ [Warn (Error_running_tests_for (project_name (project data))),
                                       Warn (Thrown e)] \<rparr>
         | Pending \<Rightarrow> s2)"


section \<open>src/lib/config/loader.ts\<close>

subsection \<open>Number(string)\<close>

text \<open>
  The numbers \<open>Number\<close> yields: not-a-number, the two infinities, or a finite value. A
  finite value is kept as the exact value of the literal: a literal beyond the largest
  double is infinity, but the rounding of the others to the nearest double and the sign
  of zero are not modelled. Whether the result is \<open>NaN\<close>, which is what the loader
  tests, does not depend on them.
\<close>

datatype jsnumber = NaN | PosInfinity | NegInfinity | Finite rat

definition isNaN :: "jsnumber \<Rightarrow> bool" where
  "isNaN n = (n = NaN)"

text \<open>
  The white space and line terminators below 256: tab, line feed, vertical tab, form
  feed, carriage return, space and no-break space.
\<close>

definition isWhiteSpace :: "char \<Rightarrow> bool" where
  "isWhiteSpace c =
     (c \<in> set [CHR 0x09, CHR 0x0A, CHR 0x0B, CHR 0x0C, CHR 0x0D, CHR '' '', CHR 0xA0])"

text \<open>\<open>s.trim()\<close>\<close>

definition trim :: "string \<Rightarrow> string" where
  "trim s = rev (dropWhile isWhiteSpace (rev (dropWhile isWhiteSpace s)))"

definition digit_value :: "char \<Rightarrow> nat option" where
  "digit_value c =
     map_of (zip ''0123456789abcdefABCDEF''
               [0, 1, 2, 3, 4, 5, 6, 7, 8, 9, 10, 11, 12, 13, 14, 15, 10, 11, 12, 13, 14, 15]) c"

definition is_digit :: "nat \<Rightarrow> char \<Rightarrow> bool" where
  "is_digit b c = (case digit_value c of None \<Rightarrow> False | Some d \<Rightarrow> d < b)"

definition digits_value :: "nat \<Rightarrow> string \<Rightarrow> nat" where
  "digits_value b ds =
     foldl (\<lambda>a c. b * a + (case digit_value c of None \<Rightarrow> 0 | Some d \<Rightarrow> d)) 0 ds"

text \<open>A non-empty run of digits of base \<open>b\<close>, and nothing else.\<close>

definition digits :: "nat \<Rightarrow> string \<Rightarrow> nat option" where
  "digits b ds =
     (if ds \<noteq> [] \<and> list_all (is_digit b) ds then Some (digits_value b ds) else None)"

text \<open>The exponent part of a decimal literal: absent, or \<open>e\<close> or \<open>E\<close>, a sign, digits.\<close>

definition exponent_part :: "string \<Rightarrow> int option" where
  "exponent_part s =
     (case s of
        [] \<Rightarrow> Some 0
      | c # r \<Rightarrow>
          if c = CHR ''e'' \<or> c = CHR ''E'' then
            (case r of
               [] \<Rightarrow> None
             | d # r' \<Rightarrow>
                 if d = CHR ''-'' then map_option (\<lambda>n. - int n) (digits 10 r')
                 else if d = CHR ''+'' then map_option int (digits 10 r')
                 else map_option int (digits 10 r))
          else None)"

text \<open>
  A non-negative value as a number: from \<open>2^1024 - 2^970\<close> on, the values that round
  beyond the largest double, it is infinity.
\<close>

definition to_number :: "rat \<Rightarrow> jsnumber" where
  "to_number r = (if 2 ^ 1024 - 2 ^ 970 \<le> r then PosInfinity else Finite r)"

definition scale10 :: "nat \<Rightarrow> int \<Rightarrow> rat" where
  "scale10 m k = (if 0 \<le> k then of_nat m * 10 ^ nat k else of_nat m / 10 ^ nat (- k))"

text \<open>
  An unsigned decimal literal: \<open>Infinity\<close>, or digits with an optional fraction and an
  optional exponent, at least one digit before or after the point.
\<close>

definition unsigned_decimal :: "string \<Rightarrow> jsnumber" where
  "unsigned_decimal s =
     (if s = ''Infinity'' then PosInfinity
      else
        let ip = takeWhile (is_digit 10) s;
            r1 = dropWhile (is_digit 10) s;
            fp = (case r1 of
                    [] \<Rightarrow> []
                  | c # r \<Rightarrow> if c = CHR ''.'' then takeWhile (is_digit 10) r else []);
            r2 = (case r1 of
                    [] \<Rightarrow> []
                  | c # r \<Rightarrow> if c = CHR ''.'' then dropWhile (is_digit 10) r else r1)
        in if ip = [] \<and> fp = [] then NaN
           else (case exponent_part r2 of
                   None \<Rightarrow> NaN
                 | Some e \<Rightarrow> to_number (scale10 (digits_value 10 (ip @ fp)) (e - int (length fp)))))"

definition negate :: "jsnumber \<Rightarrow> jsnumber" where
  "negate n =
     (case n of
        NaN \<Rightarrow> NaN
      | PosInfinity \<Rightarrow> NegInfinity
      | NegInfinity \<Rightarrow> PosInfinity
      | Finite r \<Rightarrow> Finite (- r))"

definition non_decimal :: "nat \<Rightarrow> string \<Rightarrow> jsnumber" where
  "non_decimal b ds = (case digits b ds of None \<Rightarrow> NaN | Some n \<Rightarrow> to_number (of_nat n))"

text \<open>
  \<open>Number(s)\<close> on a string: white space around the literal is dropped, the empty string
  is 0, a binary, octal or hexadecimal literal has no sign, a decimal literal may have
  one, and anything else is \<open>NaN\<close>.
\<close>

definition Number :: "string \<Rightarrow> jsnumber" where
  "Number s =
     (let t = trim s
      in if t = [] then Finite 0
         else if startsWith t ''0x'' \<or> startsWith t ''0X'' then non_decimal 16 (drop 2 t)
         else if startsWith t ''0o'' \<or> startsWith t ''0O'' then non_decimal 8 (drop 2 t)
         else if startsWith t ''0b'' \<or> startsWith t ''0B'' then non_decimal 2 (drop 2 t)
         else if startsWith t ''-'' then negate (unsigned_decimal (drop 1 t))
         else if startsWith t ''+'' then unsigned_decimal (drop 1 t)
         else unsigned_decimal t)"

subsection \<open>path.resolve\<close>

text \<open>
  POSIX \<open>path.resolve\<close>: the arguments are taken from the right until one is absolute,
  the working directory last; empty arguments are skipped; then \<open>.\<close>, \<open>..\<close> and empty
  segments are resolved.
\<close>

fun until_absolute :: "string list \<Rightarrow> string" where
  "until_absolute [] = []"
| "until_absolute (p # ps) =
     (if p = [] then until_absolute ps
      else if startsWith p ''/'' then p
      else until_absolute ps @ ''/'' @ p)"

fun normalize_segments :: "string list \<Rightarrow> string list \<Rightarrow> string list" where
  "normalize_segments [] up = rev up"
| "normalize_segments (seg # segs) up =
     (if seg = [] \<or> seg = ''.'' then normalize_segments segs up
      else if seg = ''..'' then normalize_segments segs (tl up)
      else normalize_segments segs (seg # up))"

definition path_resolve :: "string \<Rightarrow> string list \<Rightarrow> string" where
  "path_resolve cwd args =
     ''/'' @ join (normalize_segments (split (until_absolute (rev args @ [cwd])) (CHR ''/'')) []) ''/''"

subsection \<open>The Config class\<close>

datatype cvalue = NumberValue jsnumber | StringValue string | Undefined

text \<open>
  Modelled from the spec: the class \<open>Config\<close> (module \<open>./index\<close>) is not in the sources.
  The spec describes a configuration as values under dot-delimited paths, merged in
  increasing precedence and frozen against further mutation: a configuration is a map
  from paths to values with an immutability flag, \<open>set\<close> stores a value under a path,
  \<open>merge\<close> lets the merged entries overwrite the present ones, \<open>get('.')\<close> returns all
  entries, \<open>freeze\<close> sets the flag, and a frozen configuration is not mutated.
\<close>

record config =
  tree :: "string \<rightharpoonup> cvalue"
  immutable :: bool

definition config_new :: config where
  "config_new = \<lparr> tree = Map.empty, immutable = False \<rparr>"

definition config_set :: "config \<Rightarrow> string \<Rightarrow> cvalue \<Rightarrow> config" where
  "config_set c name v = (if immutable c then c else c\<lparr> tree := (tree c)(name \<mapsto> v) \<rparr>)"

definition config_merge :: "config \<Rightarrow> (string \<rightharpoonup> cvalue) \<Rightarrow> config" where
  "config_merge c obj = (if immutable c then c else c\<lparr> tree := tree c ++ obj \<rparr>)"

definition config_get_all :: "config \<Rightarrow> (string \<rightharpoonup> cvalue)" where
  "config_get_all c = tree c"

definition config_freeze :: "config \<Rightarrow> config" where
  "config_freeze c = c\<lparr> immutable := True \<rparr>"

subsection \<open>The loader\<close>

definition environmentPrefix :: string where
  "environmentPrefix = ''HOUSTON''"

definition stringToDot :: "string \<Rightarrow> string" where
  "stringToDot str =
     replace (join (splice_js (split (toLowerCase str) (CHR ''_'')) 1) ''.'') ''env'' ''environment''"

text \<open>
  The callback of \<open>forEach\<close>, lines 60 to 72, on one variable of \<open>process.env\<close> (its
  name and its value, which is always a string).
\<close>

definition environment_variable :: "config \<Rightarrow> string \<times> string \<Rightarrow> config" where
  "environment_variable config kv =
     (case kv of (key, val) \<Rightarrow>
        if startsWith key environmentPrefix then
          (let name = stringToDot key;
               numberValue = Number val
           in if isNaN numberValue = False then config_set config name (NumberValue numberValue)
              else config_set config name (StringValue val))
        else config)"

text \<open>
  \<open>process.env\<close> is the list of the variables in the order \<open>Object.keys\<close> gives them;
  the names of an object's keys are distinct.
\<close>

definition getEnvironmentConfig :: "(string \<times> string) list \<Rightarrow> config" where
  "getEnvironmentConfig process_env =
     (let config = foldl environment_variable config_new process_env;
          config = (case map_of process_env ''NODE_ENV'' of
                      None \<Rightarrow> config
                    | Some v \<Rightarrow> config_set config ''environment'' (StringValue v));
          config = (case map_of process_env ''NODE_DEBUG'' of
                      None \<Rightarrow> config
                    | Some v \<Rightarrow> config_set config ''log.console'' (StringValue ''debug''))
      in config_freeze config)"

text \<open>
  What the loader reads of the machine: the working directory, the directory of the
  module, \<open>fs.statSync(p).isFile()\<close> (which throws when nothing is at \<open>p\<close>),
  \<open>fs.readFileSync\<close>, \<open>require\<close> of a configuration file (which throws when the module
  cannot be loaded), and the \<open>version\<close> of \<open>package.json\<close> (absent when the file cannot
  be loaded or has no version).
\<close>

record host =
  cwd :: string
  dirname :: string
  statSync_isFile :: "string \<Rightarrow> err + bool"
  readFileSync :: "string \<Rightarrow> err + string"
  require :: "string \<Rightarrow> err + (string \<rightharpoonup> cvalue)"
  package_version :: "string option"

definition configurationPaths :: "host \<Rightarrow> string list" where
  "configurationPaths h =
     [path_resolve (cwd h) [cwd h, ''config.js''],
      path_resolve (cwd h) [''/etc/houston/config.js'']]"

text \<open>\<open>a[i]\<close> of an array of strings: \<open>undefined\<close> out of range.\<close>

definition at_index :: "string list \<Rightarrow> nat \<Rightarrow> cvalue" where
  "at_index a i = (if i < length a then StringValue (a ! i) else Undefined)"

text \<open>One of the two \<open>try\<close> blocks that read a file of \<open>.git\<close>, lines 107 to 131.\<close>

definition git_file :: "host \<Rightarrow> config \<Rightarrow> string \<Rightarrow> string \<Rightarrow> config" where
  "git_file h config file name =
     (let gitPath = path_resolve (cwd h) [dirname h, ''..'', ''..'', ''..'', ''.git'', file]
      in case statSync_isFile h gitPath of
           Inl e \<Rightarrow> config
         | Inr exists \<Rightarrow>
             if exists = True then
               (case readFileSync h gitPath of
                  Inl e \<Rightarrow> config
                | Inr content \<Rightarrow> config_set config name (StringValue (trim content)))
             else config)"

definition getProgramConfig :: "host \<Rightarrow> config" where
  "getProgramConfig h =
     (let config = config_new;
          config = (case package_version h of
                      None \<Rightarrow> config
                    | Some version \<Rightarrow>
                        (let parts = split (case split version (CHR ''-'') of
                                                [] \<Rightarrow> []
                                              | first # others \<Rightarrow> first) (CHR ''.'');
                             config = config_set config ''houston.version'' (StringValue version);
                             config = config_set config ''houston.major'' (at_index parts 0);
                             config = config_set config ''houston.minor'' (at_index parts 1);
                             config = config_set config ''houston.patch'' (at_index parts 2)
                         in config));
          config = git_file h config ''ORIG_HEAD'' ''houston.commit'';
          config = git_file h config ''COMMIT_EDITMSG'' ''houston.change''
      in config_freeze config)"

text \<open>
  The loop of lines 158 to 165 over the well-known paths, with \<open>file = {}\<close> before it:
  an exception of \<open>statSync\<close> or of \<open>require\<close> is caught and the loop goes on.
\<close>

fun find_file :: "host \<Rightarrow> string list \<Rightarrow> (string \<rightharpoonup> cvalue)" where
  "find_file h [] = Map.empty"
| "find_file h (possible # rest) =
     (case statSync_isFile h possible of
        Inl e \<Rightarrow> find_file h rest
      | Inr isFile \<Rightarrow>
          if isFile then
            (case require h possible of
               Inl e \<Rightarrow> find_file h rest
             | Inr file \<Rightarrow> file)
          else find_file h rest)"

definition getFileConfig :: "host \<Rightarrow> string option \<Rightarrow> err + config" where
  "getFileConfig h p =
     (let config = config_new
      in case p of
           Some q \<Rightarrow>
             if startsWith q ''/'' then
               (case require h q of
                  Inl e \<Rightarrow> Inl e
                | Inr file \<Rightarrow> Inr (config_freeze (config_merge config file)))
             else
               (let relativeP = path_resolve (cwd h) [cwd h, q]
                in case require h relativeP of
                     Inl e \<Rightarrow> Inl e
                   | Inr file \<Rightarrow> Inr (config_freeze (config_merge config file)))
         | None \<Rightarrow>
             Inr (config_freeze (config_merge config (find_file h (configurationPaths h)))))"

definition getConfig :: "host \<Rightarrow> (string \<times> string) list \<Rightarrow> string option \<Rightarrow> err + config" where
  "getConfig h process_env p =
     (let environment = getEnvironmentConfig process_env;
          program = getProgramConfig h
      in case getFileConfig h p of
           Inl e \<Rightarrow> Inl e
         | Inr file \<Rightarrow>
             Inr (config_freeze
                    (config_merge
                       (config_merge
                          (config_merge config_new (config_get_all program))
                          (config_get_all file))
                       (config_get_all environment))))"


section \<open>The specification's wording\<close>

text \<open>
  Three functions written from the sentences of the specification, to be compared with
  the code above.
\<close>

text \<open>The file name of a path: what follows its last \<open>/\<close>.\<close>

definition basename :: "string \<Rightarrow> string" where
  "basename path = last (split path (CHR ''/''))"

text \<open>
  Discovery as the specification words it: the modules under a subdirectory whose file
  name begins with the lowercased phase followed by \<open>.js\<close>.
\<close>

definition discover_spec :: "(string \<times> 'm) list \<Rightarrow> string \<Rightarrow> 'm list" where
  "discover_spec fs p =
     map snd (filter (\<lambda>(path, m). CHR ''/'' \<in> set path \<and>
                                    prefix (toLowerCase p @ ''.js'') (basename path)) fs)"

text \<open>
  The last-write-wins merge of a sequence of maps: a key has the value of the last map
  of the sequence that holds it.
\<close>

definition last_write_wins :: "('k \<rightharpoonup> 'v) list \<Rightarrow> ('k \<rightharpoonup> 'v)" where
  "last_write_wins ms k =
     (case filter (\<lambda>m. m k \<noteq> None) (rev ms) of
        [] \<Rightarrow> None
      | m # earlier \<Rightarrow> m k)"

text \<open>
  The path of an environment variable as the specification words it: lowercase, drop
  the prefix segment, rename a segment \<open>env\<close> to \<open>environment\<close>, join with dots.
\<close>

definition stringToDot_spec :: "string \<Rightarrow> string" where
  "stringToDot_spec str =
     join (map (\<lambda>seg. if seg = ''env'' then ''environment'' else seg)
             (splice_js (split (toLowerCase str) (CHR ''_'')) 1)) ''.''"

section \<open>Concrete inputs\<close>

definition example_job :: job where
  "example_job =
     \<lparr> repo = ''git@host:org/app.git'', tag = ''master'',
       project = \<lparr> project_id = ''p1'', project_name = ''App'' \<rparr>,
       release = None, cycle = ''c1'' \<rparr>"

definition lint_result :: "nat partial_result" where
  "lint_result =
     \<lparr> errors = 1, warnings = 0, information = [''lintOk'' \<mapsto> 0],
       issue = Some \<lparr> title = ''Lint failed'', body = ''...'' \<rparr> \<rparr>"

definition size_result :: "nat partial_result" where
  "size_result =
     \<lparr> errors = 0, warnings = 2, information = [''sizeKb'' \<mapsto> 500], issue = None \<rparr>"

definition lint_hook :: "nat Hook" where
  "lint_hook data = Returns (Fulfilled 2 lint_result)"

definition size_hook :: "nat Hook" where
  "size_hook data = Returns (Fulfilled 5 size_result)"

definition rejecting_hook :: "nat Hook" where
  "rejecting_hook data = Returns (Rejected 1 ''boom'')"

definition throwing_hook :: "nat Hook" where
  "throwing_hook data = Throws ''not a constructor''"

definition idle :: "nat effects" where
  "idle = \<lparr> sent = [], logged = [] \<rparr>"

text \<open>A machine with no configuration file, and one with \<open>/etc/houston/config.js\<close>.\<close>

definition bare_host :: host where
  "bare_host =
     \<lparr> cwd = ''/srv/houston'', dirname = ''/srv/houston/build/lib/config'',
       statSync_isFile = (\<lambda>p. Inl ''ENOENT''),
       readFileSync = (\<lambda>p. Inl ''ENOENT''),
       require = (\<lambda>p. Inl ''Cannot find module''),
       package_version = None \<rparr>"

definition etc_host :: host where
  "etc_host =
     \<lparr> cwd = ''/srv/houston'', dirname = ''/srv/houston/build/lib/config'',
       statSync_isFile = (\<lambda>p. if p = ''/etc/houston/config.js'' then Inr True else Inl ''ENOENT''),
       readFileSync = (\<lambda>p. Inl ''ENOENT''),
       require = (\<lambda>p. if p = ''/etc/houston/config.js''
                       then Inr [''log.level'' \<mapsto> StringValue ''info'',
                                 ''server.url'' \<mapsto> StringValue ''http://localhost'']
                       else Inl ''Cannot find module''),
       package_version = Some ''1.2.3-beta'' \<rparr>"

section \<open>Properties of the string primitives\<close>

lemma indexOf_lower_bound: "- 1 \<le> indexOf s pat"
  by (induction s) (auto simp: Let_def)

lemma indexOf_zero_iff: "indexOf s pat = 0 \<longleftrightarrow> prefix pat s"
proof (cases s)
  case Nil
  then show ?thesis by simp
next
  case (Cons c r)
  have "- 1 \<le> indexOf r pat" by (rule indexOf_lower_bound)
  then show ?thesis using Cons by (auto simp: Let_def)
qed

lemma indexOf_char_absent_iff: "indexOf s [c] = - 1 \<longleftrightarrow> c \<notin> set s"
proof (induction s)
  case Nil
  then show ?case by simp
next
  case (Cons a s)
  have lb: "- 1 \<le> indexOf s [c]" by (rule indexOf_lower_bound)
  show ?case
  proof (cases "c = a")
    case True
    then show ?thesis by simp
  next
    case False
    then show ?thesis using Cons lb by (auto simp: Let_def)
  qed
qed

lemma replace_absent: "\<not> sublist pat s \<Longrightarrow> replace s pat rep = s"
proof (induction s)
  case Nil
  then show ?case by auto
next
  case (Cons c s)
  then have "\<not> prefix pat (c # s)" "\<not> sublist pat s"
    by (auto simp: sublist_Cons_right)
  then show ?case using Cons.IH by simp
qed

lemma split_not_Nil: "split s sep \<noteq> []"
  by (induction s) (auto split: list.splits)

lemma join_Cons_head: "join ((c # x) # xs) sep = c # join (x # xs) sep"
  by (cases xs) simp_all

lemma join_split: "join (split s sep) [sep] = s"
proof (induction s)
  case Nil
  then show ?case by simp
next
  case (Cons c s)
  obtain x xs where sp: "split s sep = x # xs"
    using split_not_Nil [of s sep] by (cases "split s sep") auto
  show ?case using Cons sp by (simp add: join_Cons_head)
qed

lemma member_sublist_join: "seg \<in> set segs \<Longrightarrow> sublist seg (join segs sep)"
proof (induction segs sep rule: join.induct)
  case (1 sep)
  then show ?case by simp
next
  case (2 x sep)
  then show ?case by simp
next
  case (3 x y ys sep)
  show ?case
  proof (cases "seg = x")
    case True
    then show ?thesis by (simp add: sublist_append)
  next
    case False
    with 3 have "sublist seg (join (y # ys) sep)" by simp
    then show ?thesis by (simp add: sublist_append)
  qed
qed

lemma sublist_across_separator:
  assumes "sublist pat (xs @ c # ys)" and "c \<notin> set pat"
  shows "sublist pat xs \<or> sublist pat ys"
proof -
  from assms(1) consider "sublist pat xs" | "sublist pat (c # ys)"
    | p1 p2 where "pat = p1 @ p2" "suffix p1 xs" "prefix p2 (c # ys)"
    by (auto simp: sublist_append)
  then show ?thesis
  proof cases
    case 1
    then show ?thesis by simp
  next
    case 2
    then have "prefix pat (c # ys) \<or> sublist pat ys" by (simp add: sublist_Cons_right)
    moreover have "prefix pat (c # ys) \<Longrightarrow> pat = []"
      using assms(2) by (cases pat) auto
    ultimately show ?thesis by auto
  next
    case 3
    have "p2 = []" using 3(1,3) assms(2) by (cases p2) auto
    with 3 have "suffix pat xs" by simp
    then show ?thesis by (simp add: suffix_imp_sublist)
  qed
qed

lemma sublist_join_segment:
  "sublist pat (join segs [c]) \<Longrightarrow> c \<notin> set pat \<Longrightarrow> pat \<noteq> [] \<Longrightarrow>
     \<exists>seg \<in> set segs. sublist pat seg"
proof (induction segs "[c]" rule: join.induct)
  case 1
  then show ?case by simp
next
  case (2 x)
  then show ?case by simp
next
  case (3 x y ys)
  from 3(2) have "sublist pat (x @ c # join (y # ys) [c])" by simp
  from sublist_across_separator [OF this 3(3)] 3 show ?case by auto
qed

section \<open>Discovery\<close>

text \<open>
  What the callback of \<open>runHooks\<close> accepts: the paths with a \<open>/\<close> that do not begin
  with the lowercased phase followed by \<open>.js\<close>. The position 0 it compares with is the
  start of the whole path, not of the file name.
\<close>

lemma hook_filter_iff:
  "hook_filter test path \<longleftrightarrow>
     CHR ''/'' \<in> set path \<and> \<not> prefix (toLowerCase test @ ''.js'') path"
  unfolding hook_filter_def using indexOf_char_absent_iff [of path "CHR ''/''"] indexOf_zero_iff [of path "toLowerCase test @ ''.js''"]
  by auto

lemma walk_hook_filter:
  "walk (Files fs) (hook_filter test) =
     Inr (map snd (filter (\<lambda>(path, m). CHR ''/'' \<in> set path \<and>
                                         \<not> prefix (toLowerCase test @ ''.js'') path) fs))"
  by (simp add: walk_def hook_filter_iff)

text \<open>
  Claim C1. Discovery is to return exactly the modules under a subdirectory whose file
  name begins with the lowercased phase followed by \<open>.js\<close>, and never a module at the
  root. On a tree with \<open>apt/post.js\<close>, \<open>apt/pre.js\<close> and \<open>pre.js\<close> and the phase
  \<open>pre\<close>, the code returns the modules of \<open>apt/post.js\<close> and \<open>apt/pre.js\<close>, where
  the specification's wording selects \<open>apt/pre.js\<close> alone: the phase does not restrict
  what is returned from a subdirectory. The module at the root is left out by both.
\<close>

theorem C1_discovery_keeps_other_phases:
  "walk (Files [(''apt/post.js'', 1::nat), (''apt/pre.js'', 2), (''pre.js'', 3)]) (hook_filter ''pre'')
     = Inr [1, 2]
   \<and> discover_spec [(''apt/post.js'', 1::nat), (''apt/pre.js'', 2), (''pre.js'', 3)] ''pre'' = [2]"
  by (simp add: walk_def hook_filter_def discover_spec_def basename_def
        toLowerCase_def toLowerCase_char_def)

section \<open>Promise.all and the pipeline behind it\<close>

lemma first_rejection_member:
  "first_rejection ps = Some (t, e) \<Longrightarrow> Rejected t e \<in> set ps"
  by (induction ps arbitrary: t e rule: first_rejection.induct)
     (auto split: option.splits if_splits)

lemma first_rejection_exists:
  "Rejected t e \<in> set ps \<Longrightarrow> \<exists>t' e'. first_rejection ps = Some (t', e')"
  by (induction ps rule: first_rejection.induct) (auto split: option.splits)

lemma first_rejection_least:
  "first_rejection ps = Some (t, e) \<Longrightarrow> Rejected t' e' \<in> set ps \<Longrightarrow> t \<le> t'"
proof (induction ps arbitrary: t e rule: first_rejection.induct)
  case 1
  then show ?case by simp
next
  case (2 u d ps)
  show ?case
  proof (cases "first_rejection ps")
    case None
    then have "Rejected t' e' \<notin> set ps"
      using first_rejection_exists [of t' e' ps] by auto
    with 2 None show ?thesis by auto
  next
    case (Some te)
    obtain t1 e1 where te: "te = (t1, e1)" by (cases te)
    show ?thesis
    proof (cases "Rejected t' e' \<in> set ps")
      case True
      then have "t1 \<le> t'" using "2.IH" Some te by blast
      with 2 Some te show ?thesis by (auto split: if_splits)
    next
      case False
      with 2 Some te show ?thesis by (auto split: if_splits)
    qed
  qed
next
  case (3 u v ps)
  then show ?case by auto
next
  case (4 ps)
  then show ?case by auto
qed

lemma first_rejection_fulfilled:
  "first_rejection (map (\<lambda>(t, r). Fulfilled t r) trs) = None"
  by (induction trs) auto

lemma all_values_fulfilled:
  "all_values (map (\<lambda>(t, r). Fulfilled t r) trs) = Some (foldr max (map fst trs) 0, map snd trs)"
  by (induction trs) auto

lemma foldr_max_upper: "t \<in> set ts \<Longrightarrow> t \<le> foldr max ts (0::nat)"
  by (induction ts) auto

lemma foldr_max_member: "ts \<noteq> [] \<Longrightarrow> foldr max ts (0::nat) \<in> set ts"
proof (induction ts)
  case Nil
  then show ?case by simp
next
  case (Cons a ts)
  then show ?case by (cases ts) (auto simp: max_def)
qed

lemma Promise_all_fulfilled:
  "Promise_all (map (\<lambda>(t, r). Fulfilled t r) trs) = Fulfilled (foldr max (map fst trs) 0) (map snd trs)"
  by (simp add: Promise_all_def first_rejection_fulfilled all_values_fulfilled)

lemma Promise_all_rejected:
  assumes "Rejected t0 e0 \<in> set ps"
  shows "\<exists>t e. Promise_all ps = Rejected t e \<and> Rejected t e \<in> set ps \<and>
           (\<forall>t' e'. Rejected t' e' \<in> set ps \<longrightarrow> t \<le> t')"
proof -
  from assms obtain t e where fr: "first_rejection ps = Some (t, e)"
    using first_rejection_exists by blast
  have "Promise_all ps = Rejected t e" by (simp add: Promise_all_def fr)
  moreover have "Rejected t e \<in> set ps" using fr by (rule first_rejection_member)
  moreover have "\<forall>t' e'. Rejected t' e' \<in> set ps \<longrightarrow> t \<le> t'"
    using fr first_rejection_least by blast
  ultimately show ?thesis by blast
qed

lemma settle_fulfilled:
  "settle data (map (\<lambda>(t, r). Fulfilled t r) trs) =
     (Fulfilled (foldr max (map fst trs) 0) (stamp data (collect (Some (map snd trs)))), [])"
  by (simp add: settle_def Promise_all_fulfilled catch_log_def then_promise_def)

lemma settle_rejected:
  assumes "Rejected t0 e0 \<in> set tests"
  shows "\<exists>t e. settle data tests = (Fulfilled t (stamp data (collect None)), [Error (Thrown e)]) \<and>
           Rejected t e \<in> set tests \<and> (\<forall>t' e'. Rejected t' e' \<in> set tests \<longrightarrow> t \<le> t')"
proof -
  from Promise_all_rejected [OF assms] obtain t e where
    pa: "Promise_all tests = Rejected t e" and mem: "Rejected t e \<in> set tests"
    and least: "\<forall>t' e'. Rejected t' e' \<in> set tests \<longrightarrow> t \<le> t'" by blast
  have "settle data tests = (Fulfilled t (stamp data (collect None)), [Error (Thrown e)])"
    by (simp add: settle_def pa catch_log_def then_promise_def)
  with mem least show ?thesis by blast
qed

section \<open>The aggregate\<close>

lemma foldl_add_result_errors:
  "obj_errors (foldl add_result acc rs) = obj_errors acc + sum_list (map errors rs)"
  by (induction rs arbitrary: acc) (simp_all add: add_result_def)

lemma foldl_add_result_warnings:
  "obj_warnings (foldl add_result acc rs) = obj_warnings acc + sum_list (map warnings rs)"
  by (induction rs arbitrary: acc) (simp_all add: add_result_def)

lemma foldl_add_result_information:
  "obj_information (foldl add_result acc rs) = foldl (++) (obj_information acc) (map information rs)"
  by (induction rs arbitrary: acc) (simp_all add: add_result_def)

lemma collect_empty: "collect (Some []) = collect None"
  by (simp add: collect_def)

lemma foldl_map_add_lookup:
  "foldl (++) m0 ms k =
     (case filter (\<lambda>m. m k \<noteq> None) (rev ms) of [] \<Rightarrow> m0 k | m # earlier \<Rightarrow> m k)"
proof (induction ms rule: rev_induct)
  case Nil
  then show ?case by simp
next
  case (snoc m ms)
  show ?case
  proof (cases "m k")
    case None
    then show ?thesis using snoc by (simp add: map_add_def)
  next
    case (Some v)
    then show ?thesis by (simp add: map_add_def)
  qed
qed

text \<open>The report of no partial results, and the issues of a report: the results' issues that are not null, in order.\<close>

lemma aggregate_of_nothing:
  "stamp data (collect (Some [])) =
     \<lparr> obj_errors = 0, obj_warnings = 0, obj_information = Map.empty, obj_issues = [],
       report_cycle = cycle data, report_project = project_id (project data),
       report_release = release data \<rparr>"
  by (simp add: stamp_def collect_def)

lemma foldl_add_result_issues:
  "obj_issues (foldl add_result acc rs) = obj_issues acc @ concat (map (\<lambda>r. case issue r of None \<Rightarrow> [] | Some i \<Rightarrow> [i]) rs)"
  by (induction rs arbitrary: acc) (simp_all add: add_result_def split: option.splits)

lemma issues_omit_null:
  "obj_issues (stamp data (collect (Some rs)))
     = concat (map (\<lambda>r. case issue r of None \<Rightarrow> [] | Some i \<Rightarrow> [i]) rs)"
  by (simp add: stamp_def collect_def foldl_add_result_issues)

text \<open>
  Claim C5. For every sequence of partial results that completed (in particular every
  non-empty one) and every job, the report's \<open>errors\<close> is the sum of the results'
  \<open>errors\<close> and its \<open>warnings\<close> the sum of their \<open>warnings\<close>. By \<open>settle_fulfilled\<close>
  this is the report \<open>runHooks\<close> resolves with when every hook fulfils.
\<close>

theorem C5_errors_and_warnings_are_sums:
  "obj_errors (stamp data (collect (Some rs))) = sum_list (map errors rs)
   \<and> obj_warnings (stamp data (collect (Some rs))) = sum_list (map warnings rs)"
  by (simp add: stamp_def collect_def foldl_add_result_errors foldl_add_result_warnings)

text \<open>
  Claim C6. For every sequence of partial results, the report's \<open>information\<close> is the
  last-write-wins merge of the results' \<open>information\<close> maps in the order of the
  sequence: each key has the value of the last result that holds it.
\<close>

theorem C6_information_last_write_wins:
  "obj_information (stamp data (collect (Some rs))) = last_write_wins (map information rs)"
proof
  fix k
  have "obj_information (stamp data (collect (Some rs))) k
          = foldl (++) Map.empty (map information rs) k"
    by (simp add: stamp_def collect_def foldl_add_result_information)
  also have "\<dots> = last_write_wins (map information rs) k"
    by (simp add: foldl_map_add_lookup last_write_wins_def)
  finally show "obj_information (stamp data (collect (Some rs))) k
                  = last_write_wins (map information rs) k" .
qed

text \<open>The example of the specification: \<open>{a: 1}\<close> then \<open>{a: 2, b: 3}\<close>.\<close>

lemma information_merge_example:
  "obj_information (stamp example_job (collect (Some
      [\<lparr> errors = 0, warnings = 0, information = [''a'' \<mapsto> 1::nat], issue = None \<rparr>,
       \<lparr> errors = 0, warnings = 0, information = [''a'' \<mapsto> 2, ''b'' \<mapsto> 3], issue = None \<rparr>])))
     = [''a'' \<mapsto> 2, ''b'' \<mapsto> 3]"
  by (simp add: stamp_def collect_def add_result_def)

section \<open>Rejections and failures\<close>

text \<open>
  The promise of \<open>runHooks\<close> is rejected exactly when the walk fails or a hook throws
  while the hooks are constructed and started; nothing is logged by \<open>runHooks\<close> then.
\<close>

lemma settle_not_rejected: "fst (settle data tests) \<noteq> Rejected t e"
  by (cases "Promise_all tests") (simp_all add: settle_def catch_log_def then_promise_def)

lemma runHooks_rejected_iff:
  "fst (runHooks flightcheck data test) = Rejected t e \<longleftrightarrow>
     t = 0 \<and> (walk flightcheck (hook_filter test) = Inl e \<or>
              (\<exists>hooks. walk flightcheck (hook_filter test) = Inr hooks \<and>
                       start_hooks data hooks = Inl e))"
  by (auto simp: runHooks_def settle_not_rejected split: sum.splits)

lemma runHooks_rejected_log:
  "fst (runHooks flightcheck data test) = Rejected t e \<Longrightarrow> snd (runHooks flightcheck data test) = []"
  by (auto simp: runHooks_def settle_not_rejected split: sum.splits)

lemma on_cycle_start_rejected:
  assumes "fst (runHooks flightcheck data ''pre'') = Rejected t e"
  shows "on_cycle_start flightcheck data s =
           s\<lparr> logged := logged s @
                 [Debug (Starting_flightcheck_on (project_name (project data))),
                  Warn (Error_running_tests_for (project_name (project data))),
                  Warn (Thrown e)] \<rparr>"
proof -
  have "runHooks flightcheck data ''pre'' = (Rejected t e, [])"
    using assms runHooks_rejected_log [OF assms] by (cases "runHooks flightcheck data ''pre''") simp
  then show ?thesis by (simp add: on_cycle_start_def)
qed

text \<open>
  Claim C3 says that for every sequence of hooks in which the \<open>run()\<close> of at least one
  rejects, the result of the run is the aggregate of an empty sequence. With a hook whose
  \<open>run()\<close> rejects followed by a hook that throws while it is constructed, the run has
  no result: its promise is rejected, and the rejection of the first hook is not logged.
\<close>

theorem C3_throw_beside_rejection:
  "start_hooks example_job [rejecting_hook] = Inr [Rejected 1 ''boom'']
   \<and> runHooks (Files [(''apt/pre.js'', rejecting_hook), (''size/pre.js'', throwing_hook)])
        example_job ''pre''
     = (Rejected 0 ''not a constructor'', [])"
  by (simp add: runHooks_def walk_def hook_filter_def toLowerCase_def toLowerCase_char_def
        rejecting_hook_def throwing_hook_def)

text \<open>
  Claim C3, amended. When all the hooks are constructed and started without an exception
  and the \<open>run()\<close> of at least one of them rejects, \<open>runHooks\<close> resolves with the
  report of an empty sequence of partial results (no errors, no warnings, empty
  information, no issues, and the job's identifiers), and the only trace of the failure
  is one logged error, the reason of a rejection.
\<close>

theorem C3_rejection_gives_empty_report:
  assumes "walk flightcheck (hook_filter test) = Inr hooks"
    and "start_hooks data hooks = Inr tests"
    and "Rejected t0 e0 \<in> set tests"
  shows "\<exists>t e. Rejected t e \<in> set tests \<and>
           runHooks flightcheck data test =
             (Fulfilled t
                \<lparr> obj_errors = 0, obj_warnings = 0, obj_information = Map.empty, obj_issues = [],
                  report_cycle = cycle data, report_project = project_id (project data),
                  report_release = release data \<rparr>,
              [Error (Thrown e)]) \<and>
           fst (runHooks flightcheck data test) = Fulfilled t (stamp data (collect (Some [])))"
proof -
  from settle_rejected [OF assms(3), of data] obtain t e where
    st: "settle data tests = (Fulfilled t (stamp data (collect None)), [Error (Thrown e)])"
    and mem: "Rejected t e \<in> set tests" by blast
  have rh: "runHooks flightcheck data test = settle data tests"
    using assms(1,2) by (simp add: runHooks_def)
  have empty: "stamp data (collect None) =
      \<lparr> obj_errors = 0, obj_warnings = 0, obj_information = Map.empty, obj_issues = [],
        report_cycle = cycle data, report_project = project_id (project data),
        report_release = release data \<rparr>"
    by (simp add: stamp_def collect_def)
  show ?thesis using mem rh st empty by (auto simp: collect_empty)
qed

text \<open>The hypotheses of C3 hold for a tree with a hook that fulfils and one that rejects.\<close>

theorem C3_rejection_gives_empty_report_witness:
  "walk (Files [(''apt/pre.js'', lint_hook), (''size/pre.js'', rejecting_hook)]) (hook_filter ''pre'')
     = Inr [lint_hook, rejecting_hook]
   \<and> start_hooks example_job [lint_hook, rejecting_hook]
     = Inr [Fulfilled 2 lint_result, Rejected 1 ''boom'']
   \<and> Rejected 1 ''boom'' \<in> set [Fulfilled 2 lint_result, Rejected 1 ''boom'']
   \<and> runHooks (Files [(''apt/pre.js'', lint_hook), (''size/pre.js'', rejecting_hook)]) example_job ''pre''
     = (Fulfilled 1
          \<lparr> obj_errors = 0, obj_warnings = 0, obj_information = Map.empty, obj_issues = [],
            report_cycle = ''c1'', report_project = ''p1'', report_release = None \<rparr>,
        [Error (Thrown ''boom'')])"
proof -
  have w: "walk (Files [(''apt/pre.js'', lint_hook), (''size/pre.js'', rejecting_hook)]) (hook_filter ''pre'')
     = Inr [lint_hook, rejecting_hook]"
    by (simp add: walk_def hook_filter_def toLowerCase_def toLowerCase_char_def)
  have s: "start_hooks example_job [lint_hook, rejecting_hook]
     = Inr [Fulfilled 2 lint_result, Rejected 1 ''boom'']"
    by (simp add: lint_hook_def rejecting_hook_def)
  have m: "Rejected 1 ''boom'' \<in> set [Fulfilled 2 lint_result, Rejected 1 ''boom'']"
    by simp
  from C3_rejection_gives_empty_report [OF w s m]
  have "runHooks (Files [(''apt/pre.js'', lint_hook), (''size/pre.js'', rejecting_hook)]) example_job ''pre''
     = (Fulfilled 1
          \<lparr> obj_errors = 0, obj_warnings = 0, obj_information = Map.empty, obj_issues = [],
            report_cycle = ''c1'', report_project = ''p1'', report_release = None \<rparr>,
        [Error (Thrown ''boom'')])"
    by (auto simp: example_job_def)
  with w s m show ?thesis by simp
qed

text \<open>
  Claim C2 says that after any failure during a run, a rejection of a hook's \<open>run()\<close>
  included, no \<open>cycle:finished\<close> report is published. With one hook, whose \<open>run()\<close>
  rejects, the handler publishes a report: the empty one.
\<close>

theorem C2_rejection_is_published:
  "sent (on_cycle_start (Files [(''apt/pre.js'', rejecting_hook)]) example_job idle)
     = [(''houston'', ''cycle:finished'', stamp example_job (collect None))]"
  by (simp add: on_cycle_start_def runHooks_def walk_def hook_filter_def
        toLowerCase_def toLowerCase_char_def rejecting_hook_def settle_def Promise_all_def
        catch_log_def then_promise_def idle_def)

text \<open>
  Claim C2, amended. When discovery fails or any exception makes the run fail (the
  promise of \<open>runHooks\<close> is rejected: the walk fails, or a hook throws while the hooks
  are constructed and started), nothing is published and the failure is only logged, as
  a warning after the project's name. When all the hooks are constructed and started and
  the \<open>run()\<close> of one of them rejects, the reason is logged as an error and a
  \<open>cycle:finished\<close> report, the empty one, is published to \<open>houston\<close>.
\<close>

theorem C2_failures_and_publication:
  "(fst (runHooks flightcheck data ''pre'') = Rejected t e \<longrightarrow>
      on_cycle_start flightcheck data s =
        s\<lparr> logged := logged s @
              [Debug (Starting_flightcheck_on (project_name (project data))),
               Warn (Error_running_tests_for (project_name (project data))),
               Warn (Thrown e)] \<rparr>)
   \<and> (walk flightcheck (hook_filter ''pre'') = Inl e \<longrightarrow>
      on_cycle_start flightcheck data s =
        s\<lparr> logged := logged s @
              [Debug (Starting_flightcheck_on (project_name (project data))),
               Warn (Error_running_tests_for (project_name (project data))),
               Warn (Thrown e)] \<rparr>)
   \<and> (walk flightcheck (hook_filter ''pre'') = Inr hooks \<and> start_hooks data hooks = Inl e \<longrightarrow>
      on_cycle_start flightcheck data s =
        s\<lparr> logged := logged s @
              [Debug (Starting_flightcheck_on (project_name (project data))),
               Warn (Error_running_tests_for (project_name (project data))),
               Warn (Thrown e)] \<rparr>)
   \<and> (walk flightcheck (hook_filter ''pre'') = Inr hooks \<and> start_hooks data hooks = Inr tests
        \<and> Rejected t0 e0 \<in> set tests \<longrightarrow>
      (\<exists>t' e'. Rejected t' e' \<in> set tests \<and>
         on_cycle_start flightcheck data s =
           s\<lparr> sent := sent s @ [(''houston'', ''cycle:finished'', stamp data (collect None))],
               logged := logged s @
                 [Debug (Starting_flightcheck_on (project_name (project data))),
                  Error (Thrown e'),
                  Debug (Found_errors_in 0 (project_name (project data)))] \<rparr>))"
proof (intro conjI impI)
  assume "fst (runHooks flightcheck data ''pre'') = Rejected t e"
  then show "on_cycle_start flightcheck data s =
        s\<lparr> logged := logged s @
              [Debug (Starting_flightcheck_on (project_name (project data))),
               Warn (Error_running_tests_for (project_name (project data))),
               Warn (Thrown e)] \<rparr>"
    by (rule on_cycle_start_rejected)
next
  assume "walk flightcheck (hook_filter ''pre'') = Inl e"
  then have "fst (runHooks flightcheck data ''pre'') = Rejected 0 e"
    by (simp add: runHooks_def)
  then show "on_cycle_start flightcheck data s =
        s\<lparr> logged := logged s @
              [Debug (Starting_flightcheck_on (project_name (project data))),
               Warn (Error_running_tests_for (project_name (project data))),
               Warn (Thrown e)] \<rparr>"
    by (rule on_cycle_start_rejected)
next
  assume "walk flightcheck (hook_filter ''pre'') = Inr hooks \<and> start_hooks data hooks = Inl e"
  then have "fst (runHooks flightcheck data ''pre'') = Rejected 0 e"
    by (simp add: runHooks_def)
  then show "on_cycle_start flightcheck data s =
        s\<lparr> logged := logged s @
              [Debug (Starting_flightcheck_on (project_name (project data))),
               Warn (Error_running_tests_for (project_name (project data))),
               Warn (Thrown e)] \<rparr>"
    by (rule on_cycle_start_rejected)
next
  assume a: "walk flightcheck (hook_filter ''pre'') = Inr hooks \<and> start_hooks data hooks = Inr tests
        \<and> Rejected t0 e0 \<in> set tests"
  then have "Rejected t0 e0 \<in> set tests" by simp
  from settle_rejected [OF this, of data] obtain t' e' where
    st: "settle data tests = (Fulfilled t' (stamp data (collect None)), [Error (Thrown e')])"
    and mem: "Rejected t' e' \<in> set tests" by blast
  have "on_cycle_start flightcheck data s =
           s\<lparr> sent := sent s @ [(''houston'', ''cycle:finished'', stamp data (collect None))],
               logged := logged s @
                 [Debug (Starting_flightcheck_on (project_name (project data))),
                  Error (Thrown e'),
                  Debug (Found_errors_in 0 (project_name (project data)))] \<rparr>"
    using a st by (simp add: on_cycle_start_def runHooks_def stamp_def collect_def)
  with mem show "\<exists>t' e'. Rejected t' e' \<in> set tests \<and>
         on_cycle_start flightcheck data s =
           s\<lparr> sent := sent s @ [(''houston'', ''cycle:finished'', stamp data (collect None))],
               logged := logged s @
                 [Debug (Starting_flightcheck_on (project_name (project data))),
                  Error (Thrown e'),
                  Debug (Found_errors_in 0 (project_name (project data)))] \<rparr>" by blast
qed

text \<open>
  The cases of C2 at an unreadable directory, a hook that throws, a hook that throws
  after one that rejects, and a hook that rejects.
\<close>

theorem C2_failures_and_publication_witness:
  "walk (Unreadable ''ENOENT'' :: nat Hook directory) (hook_filter ''pre'') = Inl ''ENOENT''
   \<and> on_cycle_start (Unreadable ''ENOENT'') example_job idle =
        idle\<lparr> logged := [Debug (Starting_flightcheck_on ''App''),
                          Warn (Error_running_tests_for ''App''), Warn (Thrown ''ENOENT'')] \<rparr>
   \<and> walk (Files [(''apt/pre.js'', throwing_hook)]) (hook_filter ''pre'') = Inr [throwing_hook]
   \<and> start_hooks example_job [throwing_hook] = Inl ''not a constructor''
   \<and> on_cycle_start (Files [(''apt/pre.js'', throwing_hook)]) example_job idle =
        idle\<lparr> logged := [Debug (Starting_flightcheck_on ''App''),
                          Warn (Error_running_tests_for ''App''),
                          Warn (Thrown ''not a constructor'')] \<rparr>
   \<and> fst (runHooks (Files [(''apt/pre.js'', rejecting_hook), (''size/pre.js'', throwing_hook)])
          example_job ''pre'') = Rejected 0 ''not a constructor''
   \<and> on_cycle_start (Files [(''apt/pre.js'', rejecting_hook), (''size/pre.js'', throwing_hook)])
        example_job idle =
        idle\<lparr> logged := [Debug (Starting_flightcheck_on ''App''),
                          Warn (Error_running_tests_for ''App''),
                          Warn (Thrown ''not a constructor'')] \<rparr>
   \<and> walk (Files [(''apt/pre.js'', rejecting_hook)]) (hook_filter ''pre'') = Inr [rejecting_hook]
   \<and> start_hooks example_job [rejecting_hook] = Inr [Rejected 1 ''boom'']
   \<and> Rejected 1 ''boom'' \<in> set [Rejected 1 ''boom'' :: nat partial_result promise]
   \<and> on_cycle_start (Files [(''apt/pre.js'', rejecting_hook)]) example_job idle =
        idle\<lparr> sent := [(''houston'', ''cycle:finished'', stamp example_job (collect None))],
               logged := [Debug (Starting_flightcheck_on ''App''), Error (Thrown ''boom''),
                          Debug (Found_errors_in 0 ''App'')] \<rparr>"
proof -
  have w1: "walk (Unreadable ''ENOENT'' :: nat Hook directory) (hook_filter ''pre'') = Inl ''ENOENT''"
    by (simp add: walk_def)
  have w2: "walk (Files [(''apt/pre.js'', throwing_hook)]) (hook_filter ''pre'') = Inr [throwing_hook]"
    by (simp add: walk_def hook_filter_def toLowerCase_def toLowerCase_char_def)
  have s2: "start_hooks example_job [throwing_hook] = Inl ''not a constructor''"
    by (simp add: throwing_hook_def)
  have w3: "walk (Files [(''apt/pre.js'', rejecting_hook)]) (hook_filter ''pre'') = Inr [rejecting_hook]"
    by (simp add: walk_def hook_filter_def toLowerCase_def toLowerCase_char_def)
  have s3: "start_hooks example_job [rejecting_hook] = Inr [Rejected 1 ''boom'']"
    by (simp add: rejecting_hook_def)
  have r4: "fst (runHooks (Files [(''apt/pre.js'', rejecting_hook), (''size/pre.js'', throwing_hook)])
          example_job ''pre'') = Rejected 0 ''not a constructor''"
    by (simp add: runHooks_def walk_def hook_filter_def toLowerCase_def toLowerCase_char_def
          rejecting_hook_def throwing_hook_def)
  have n: "project_name (project example_job) = ''App''"
    by (simp add: example_job_def)
  have l: "logged idle = []" "sent idle = []"
    by (simp_all add: idle_def)
  note a = C2_failures_and_publication
    [where flightcheck = "Unreadable ''ENOENT''" and e = "''ENOENT''" and data = example_job
       and s = idle]
  note b = C2_failures_and_publication
    [where flightcheck = "Files [(''apt/pre.js'', throwing_hook)]" and e = "''not a constructor''"
       and data = example_job and s = idle and hooks = "[throwing_hook]"]
  note c = C2_failures_and_publication
    [where flightcheck = "Files [(''apt/pre.js'', rejecting_hook)]" and data = example_job
       and s = idle and hooks = "[rejecting_hook]" and tests = "[Rejected 1 ''boom'']"
       and ?t0.0 = 1 and ?e0.0 = "''boom''"]
  note d = C2_failures_and_publication
    [where flightcheck = "Files [(''apt/pre.js'', rejecting_hook), (''size/pre.js'', throwing_hook)]"
       and data = example_job and s = idle and t = 0 and e = "''not a constructor''"]
  from a w1 have r1: "on_cycle_start (Unreadable ''ENOENT'') example_job idle =
        idle\<lparr> logged := [Debug (Starting_flightcheck_on ''App''),
                          Warn (Error_running_tests_for ''App''), Warn (Thrown ''ENOENT'')] \<rparr>"
    by (simp add: n l)
  from b w2 s2 have r2: "on_cycle_start (Files [(''apt/pre.js'', throwing_hook)]) example_job idle =
        idle\<lparr> logged := [Debug (Starting_flightcheck_on ''App''),
                          Warn (Error_running_tests_for ''App''),
                          Warn (Thrown ''not a constructor'')] \<rparr>"
    by (simp add: n l)
  from c w3 s3 have r3: "on_cycle_start (Files [(''apt/pre.js'', rejecting_hook)]) example_job idle =
        idle\<lparr> sent := [(''houston'', ''cycle:finished'', stamp example_job (collect None))],
               logged := [Debug (Starting_flightcheck_on ''App''), Error (Thrown ''boom''),
                          Debug (Found_errors_in 0 ''App'')] \<rparr>"
    by (simp add: n l)
  from d r4 have r5: "on_cycle_start (Files [(''apt/pre.js'', rejecting_hook), (''size/pre.js'', throwing_hook)])
        example_job idle =
        idle\<lparr> logged := [Debug (Starting_flightcheck_on ''App''),
                          Warn (Error_running_tests_for ''App''),
                          Warn (Thrown ''not a constructor'')] \<rparr>"
    by (simp add: n l)
  from w1 w2 s2 w3 s3 r1 r2 r3 r4 r5 show ?thesis by simp
qed

text \<open>
  Claim C4 says that the runner waits for every \<open>run()\<close> to settle before it returns,
  also when some reject. With a rejection at instant 1, the result is there at instant 1,
  while another hook settles at instant 5 in the first run and never in the second.
\<close>

theorem C4_returns_before_all_settle:
  "fst (settle example_job [Rejected 1 ''boom'', Fulfilled 5 size_result])
     = Fulfilled 1 (stamp example_job (collect None))
   \<and> fst (settle example_job [Rejected 1 ''boom'', Pending :: nat partial_result promise])
     = Fulfilled 1 (stamp example_job (collect None))"
  by (simp add: settle_def Promise_all_def catch_log_def then_promise_def)

text \<open>
  Claim C4, amended. When every \<open>run()\<close> fulfils, the runner returns its result at the
  instant the last of them fulfils, so after all have settled. When some \<open>run()\<close>
  rejects, it returns at the earliest rejection, whatever the state of the others.
\<close>

theorem C4_barrier_when_all_fulfil:
  "(\<exists>T. fst (settle data (map (\<lambda>(t, r). Fulfilled t r) trs))
            = Fulfilled T (stamp data (collect (Some (map snd trs))))
        \<and> (\<forall>(t, r) \<in> set trs. t \<le> T)
        \<and> (trs = [] \<or> T \<in> fst ` set trs))
   \<and> (Rejected t0 e0 \<in> set tests \<longrightarrow>
        (\<exists>t e. fst (settle data tests) = Fulfilled t (stamp data (collect None))
           \<and> Rejected t e \<in> set tests
           \<and> (\<forall>t' e'. Rejected t' e' \<in> set tests \<longrightarrow> t \<le> t')))"
proof (intro conjI impI)
  let ?T = "foldr max (map fst trs) 0"
  have 1: "fst (settle data (map (\<lambda>(t, r). Fulfilled t r) trs))
            = Fulfilled ?T (stamp data (collect (Some (map snd trs))))"
    by (simp add: settle_fulfilled)
  have 2: "\<forall>(t, r) \<in> set trs. t \<le> ?T"
    using foldr_max_upper [of _ "map fst trs"] by force
  have 3: "trs = [] \<or> ?T \<in> fst ` set trs"
    using foldr_max_member [of "map fst trs"] by auto
  from 1 2 3 show "\<exists>T. fst (settle data (map (\<lambda>(t, r). Fulfilled t r) trs))
            = Fulfilled T (stamp data (collect (Some (map snd trs))))
        \<and> (\<forall>(t, r) \<in> set trs. t \<le> T)
        \<and> (trs = [] \<or> T \<in> fst ` set trs)" by blast
next
  assume "Rejected t0 e0 \<in> set tests"
  from settle_rejected [OF this, of data]
  show "\<exists>t e. fst (settle data tests) = Fulfilled t (stamp data (collect None))
           \<and> Rejected t e \<in> set tests
           \<and> (\<forall>t' e'. Rejected t' e' \<in> set tests \<longrightarrow> t \<le> t')"
    by force
qed

text \<open>Two hooks that fulfil at instants 2 and 5; and a rejection at instant 1 beside a hook that never settles.\<close>

theorem C4_barrier_when_all_fulfil_witness:
  "fst (settle example_job [Fulfilled 2 lint_result, Fulfilled 5 size_result])
     = Fulfilled 5 (stamp example_job (collect (Some [lint_result, size_result])))
   \<and> Rejected 1 ''boom'' \<in> set [Fulfilled 2 lint_result, Rejected 1 ''boom'', Pending]
   \<and> fst (settle example_job [Fulfilled 2 lint_result, Rejected 1 ''boom'', Pending])
     = Fulfilled 1 (stamp example_job (collect None))"
proof -
  from C4_barrier_when_all_fulfil [of example_job "[(2, lint_result), (5, size_result)]" 0 "''''" "[]"]
  have a: "fst (settle example_job [Fulfilled 2 lint_result, Fulfilled 5 size_result])
     = Fulfilled 5 (stamp example_job (collect (Some [lint_result, size_result])))"
    by auto
  have m: "Rejected 1 ''boom'' \<in> set [Fulfilled 2 lint_result, Rejected 1 ''boom'', Pending]"
    by simp
  from C4_barrier_when_all_fulfil
    [of example_job "[]" 1 "''boom''" "[Fulfilled 2 lint_result, Rejected 1 ''boom'', Pending]"] m
  have b: "fst (settle example_job [Fulfilled 2 lint_result, Rejected 1 ''boom'', Pending])
     = Fulfilled 1 (stamp example_job (collect None))"
    by auto
  from a m b show ?thesis by simp
qed

text \<open>The end-to-end scenario of the specification: two hooks that fulfil.\<close>

lemma end_to_end_example:
  "on_cycle_start (Files [(''lint/pre.js'', lint_hook), (''size/pre.js'', size_hook)]) example_job idle
     = \<lparr> sent = [(''houston'', ''cycle:finished'',
                    \<lparr> obj_errors = 1, obj_warnings = 2,
                      obj_information = [''lintOk'' \<mapsto> 0, ''sizeKb'' \<mapsto> 500],
                      obj_issues = [\<lparr> title = ''Lint failed'', body = ''...'' \<rparr>],
                      report_cycle = ''c1'', report_project = ''p1'', report_release = None \<rparr>)],
         logged = [Debug (Starting_flightcheck_on ''App''), Debug (Found_errors_in 1 ''App'')] \<rparr>"
  by (simp add: on_cycle_start_def runHooks_def walk_def hook_filter_def toLowerCase_def
        toLowerCase_char_def lint_hook_def size_hook_def settle_def Promise_all_def catch_log_def
        then_promise_def collect_def add_result_def stamp_def lint_result_def size_result_def
        example_job_def idle_def)

section \<open>The configuration loader\<close>

text \<open>The two examples the specification gives for the path of a variable.\<close>

lemma stringToDot_examples:
  "stringToDot ''HOUSTON_LOG_LEVEL'' = ''log.level''"
  "stringToDot ''HOUSTON_ENV_NAME'' = ''environment.name''"
  by (simp_all add: stringToDot_def splice_js_def toLowerCase_def toLowerCase_char_def)

text \<open>
  Where the letters \<open>env\<close> do not occur in the lowercased name, the code computes the
  path the specification words.
\<close>

lemma stringToDot_without_env:
  assumes "\<not> sublist ''env'' (toLowerCase str)"
  shows "stringToDot str = stringToDot_spec str"
proof -
  let ?segs = "split (toLowerCase str) (CHR ''_'')"
  have seg: "\<not> sublist ''env'' seg" if "seg \<in> set ?segs" for seg
  proof
    assume "sublist ''env'' seg"
    moreover have "sublist seg (toLowerCase str)"
      using member_sublist_join [OF that, of "[CHR ''_'']"] by (simp add: join_split)
    ultimately have "sublist ''env'' (toLowerCase str)" by (rule sublist_order.order.trans)
    with assms show False by simp
  qed
  have rest: "seg \<in> set ?segs" if "seg \<in> set (splice_js ?segs 1)" for seg
    using that by (auto simp: splice_js_def dest: in_set_dropD)
  have same: "map (\<lambda>seg. if seg = ''env'' then ''environment'' else seg) (splice_js ?segs 1)
                = splice_js ?segs 1"
  proof (rule map_idI)
    fix seg assume "seg \<in> set (splice_js ?segs 1)"
    then have "\<not> sublist ''env'' seg" using seg rest by blast
    then have "seg \<noteq> ''env''" by auto
    then show "(if seg = ''env'' then ''environment'' else seg) = seg" by simp
  qed
  have absent: "\<not> sublist ''env'' (join (splice_js ?segs 1) ''.'')"
  proof
    assume "sublist ''env'' (join (splice_js ?segs 1) ''.'')"
    from sublist_join_segment [OF this] obtain seg
      where "seg \<in> set (splice_js ?segs 1)" "sublist ''env'' seg" by auto
    with seg rest show False by blast
  qed
  show ?thesis
    unfolding stringToDot_def stringToDot_spec_def same
    using absent by (rule replace_absent)
qed

text \<open>
  Claim C7. The path of a recognised variable is to be its lowercased name without the
  prefix segment, the segments joined by dots, a segment \<open>env\<close> renamed to
  \<open>environment\<close>. The code replaces the first occurrence of the letters \<open>env\<close> in the
  joined path, inside a longer segment too: \<open>HOUSTON_ENVIRONMENT\<close> is stored under
  \<open>environmentironment\<close>, where the wording gives \<open>environment\<close>.
\<close>

theorem C7_environment_inside_a_segment:
  "stringToDot ''HOUSTON_ENVIRONMENT'' = ''environmentironment''
   \<and> stringToDot_spec ''HOUSTON_ENVIRONMENT'' = ''environment''"
  by (simp add: stringToDot_def stringToDot_spec_def splice_js_def toLowerCase_def toLowerCase_char_def)

lemma environment_loop_mutable:
  "\<not> immutable c \<Longrightarrow> \<not> immutable (foldl environment_variable c vars)"
proof (induction vars arbitrary: c)
  case Nil
  then show ?case by simp
next
  case (Cons kv vars)
  obtain k v where kv: "kv = (k, v)" by (cases kv)
  have "\<not> immutable (environment_variable c kv)"
    using Cons.prems by (simp add: kv environment_variable_def config_set_def Let_def)
  then show ?case using Cons.IH by simp
qed

lemma Number_empty: "Number [] = Finite 0"
  by (simp add: Number_def trim_def)

text \<open>
  On a variable with the prefix and the empty string as its value, the callback stores
  the number 0: \<open>Number('')\<close> is 0, which is not \<open>NaN\<close>. A variable that is stored
  under another path, or is not stored, leaves the path alone.
\<close>

lemma environment_variable_empty:
  "startsWith key environmentPrefix \<Longrightarrow>
     environment_variable config (key, '''')
       = config_set config (stringToDot key) (NumberValue (Finite 0))"
  by (simp add: environment_variable_def Number_empty isNaN_def)

lemma environment_variable_other_path:
  assumes "startsWith k environmentPrefix \<longrightarrow> stringToDot k \<noteq> name"
  shows "tree (environment_variable c (k, v)) name = tree c name"
  using assms by (auto simp: environment_variable_def config_set_def Let_def)

lemma environment_loop_other_paths:
  assumes "\<forall>(k, v) \<in> set vars. startsWith k environmentPrefix \<longrightarrow> stringToDot k \<noteq> name"
  shows "tree (foldl environment_variable c vars) name = tree c name"
  using assms
proof (induction vars arbitrary: c)
  case Nil
  then show ?case by simp
next
  case (Cons kv vars)
  obtain k v where kv: "kv = (k, v)" by (cases kv)
  have "tree (environment_variable c kv) name = tree c name"
    using Cons.prems by (simp add: kv environment_variable_other_path)
  moreover have "tree (foldl environment_variable (environment_variable c kv) vars) name
                   = tree (environment_variable c kv) name"
    using Cons.prems by (intro Cons.IH) simp
  ultimately show ?case by simp
qed

text \<open>
  Claim C9 says that for every variable with the prefix and an empty value the environment
  configuration holds the number 0 and not a string. \<open>HOUSTON_ENV\<close> with an empty
  value is stored under \<open>environment\<close>, the path the special case \<open>NODE_ENV\<close> writes
  after the loop: the configuration returned holds the string \<open>production\<close> there.
\<close>

theorem C9_special_case_replaces_zero:
  "startsWith ''HOUSTON_ENV'' environmentPrefix
   \<and> stringToDot ''HOUSTON_ENV'' = ''environment''
   \<and> tree (getEnvironmentConfig [(''HOUSTON_ENV'', ''''), (''NODE_ENV'', ''production'')])
        ''environment'' = Some (StringValue ''production'')"
  by (simp add: getEnvironmentConfig_def environment_variable_def Number_empty isNaN_def
        startsWith_def environmentPrefix_def config_set_def config_new_def config_freeze_def
        stringToDot_def splice_js_def toLowerCase_def toLowerCase_char_def Let_def)

text \<open>
  Claim C9, amended. For a variable with the prefix and the empty string as its value,
  the configuration \<open>getEnvironmentConfig\<close> returns holds the number 0, not a string,
  under the variable's path, when no later variable with the prefix has the same path,
  \<open>NODE_ENV\<close> is not set if the path is \<open>environment\<close>, and \<open>NODE_DEBUG\<close> is not
  set if the path is \<open>log.console\<close>.
\<close>

theorem C9_empty_value_is_stored_as_zero:
  assumes "startsWith key environmentPrefix"
    and "\<forall>(k, v) \<in> set later. startsWith k environmentPrefix \<longrightarrow> stringToDot k \<noteq> stringToDot key"
    and "stringToDot key = ''environment'' \<longrightarrow>
           map_of (earlier @ (key, '''') # later) ''NODE_ENV'' = None"
    and "stringToDot key = ''log.console'' \<longrightarrow>
           map_of (earlier @ (key, '''') # later) ''NODE_DEBUG'' = None"
  shows "tree (getEnvironmentConfig (earlier @ (key, '''') # later)) (stringToDot key)
           = Some (NumberValue (Finite 0))"
proof -
  let ?name = "stringToDot key"
  let ?env = "earlier @ (key, '''') # later"
  let ?c0 = "foldl environment_variable config_new earlier"
  let ?c1 = "environment_variable ?c0 (key, '''')"
  let ?c2 = "foldl environment_variable config_new ?env"
  have m0: "\<not> immutable ?c0"
    by (rule environment_loop_mutable) (simp add: config_new_def)
  have "tree ?c1 ?name = Some (NumberValue (Finite 0))"
    using m0 by (simp add: environment_variable_empty [OF assms(1)] config_set_def)
  moreover have "?c2 = foldl environment_variable ?c1 later" by simp
  ultimately have t2: "tree ?c2 ?name = Some (NumberValue (Finite 0))"
    using environment_loop_other_paths [OF assms(2), of ?c1] by simp
  have m2: "\<not> immutable ?c2"
    by (rule environment_loop_mutable) (simp add: config_new_def)
  show ?thesis
    using t2 m2 assms(3,4)
    by (auto simp: getEnvironmentConfig_def Let_def config_set_def config_freeze_def
             split: option.splits)
qed

text \<open>C9 at \<open>HOUSTON_PORT\<close> with an empty value, among other variables and with \<open>NODE_ENV\<close> set.\<close>

theorem C9_empty_value_is_stored_as_zero_witness:
  "startsWith ''HOUSTON_PORT'' environmentPrefix
   \<and> stringToDot ''HOUSTON_PORT'' = ''port''
   \<and> stringToDot ''HOUSTON_LOG_LEVEL'' = ''log.level''
   \<and> tree (getEnvironmentConfig
        [(''HOME'', ''/root''), (''HOUSTON_PORT'', ''''), (''HOUSTON_LOG_LEVEL'', ''debug''),
         (''NODE_ENV'', ''production'')]) ''port''
       = Some (NumberValue (Finite 0))"
proof -
  have p: "startsWith ''HOUSTON_PORT'' environmentPrefix"
    by (simp add: startsWith_def environmentPrefix_def)
  have d: "stringToDot ''HOUSTON_PORT'' = ''port''"
    by (simp add: stringToDot_def splice_js_def toLowerCase_def toLowerCase_char_def)
  have l: "stringToDot ''HOUSTON_LOG_LEVEL'' = ''log.level''"
    by (simp add: stringToDot_def splice_js_def toLowerCase_def toLowerCase_char_def)
  have n: "\<not> startsWith ''NODE_ENV'' environmentPrefix"
    by (simp add: startsWith_def environmentPrefix_def)
  have later: "\<forall>(k, v) \<in> set [(''HOUSTON_LOG_LEVEL'', ''debug''), (''NODE_ENV'', ''production'')].
                 startsWith k environmentPrefix \<longrightarrow> stringToDot k \<noteq> stringToDot ''HOUSTON_PORT''"
    by (simp add: d l n)
  have e: "stringToDot ''HOUSTON_PORT'' = ''environment'' \<longrightarrow>
             map_of ([(''HOME'', ''/root'')] @ (''HOUSTON_PORT'', '''') #
               [(''HOUSTON_LOG_LEVEL'', ''debug''), (''NODE_ENV'', ''production'')]) ''NODE_ENV'' = None"
    by (simp add: d)
  have g: "stringToDot ''HOUSTON_PORT'' = ''log.console'' \<longrightarrow>
             map_of ([(''HOME'', ''/root'')] @ (''HOUSTON_PORT'', '''') #
               [(''HOUSTON_LOG_LEVEL'', ''debug''), (''NODE_ENV'', ''production'')]) ''NODE_DEBUG'' = None"
    by (simp add: d)
  from C9_empty_value_is_stored_as_zero [OF p later e g] p d l
  show ?thesis by simp
qed

text \<open>A later variable with the same path replaces the stored 0 as well.\<close>

lemma later_variable_replaces_zero:
  "tree (getEnvironmentConfig [(''HOUSTON_A'', ''''), (''HOUSTON_a'', ''x'')]) ''a''
     = Some (StringValue ''x'')"
  by (simp add: getEnvironmentConfig_def environment_variable_def Number_def trim_def
        isWhiteSpace_def unsigned_decimal_def is_digit_def digit_value_def isNaN_def
        startsWith_def environmentPrefix_def config_set_def config_new_def config_freeze_def
        stringToDot_def splice_js_def toLowerCase_def toLowerCase_char_def Let_def)

lemma find_file_nothing:
  "\<forall>q \<in> set ps. statSync_isFile h q \<noteq> Inr True \<Longrightarrow> find_file h ps = Map.empty"
proof (induction ps)
  case Nil
  then show ?case by simp
next
  case (Cons q ps)
  then have "statSync_isFile h q \<noteq> Inr True" by simp
  then show ?case using Cons by (auto split: sum.splits)
qed

lemma configurationPaths_example:
  "configurationPaths bare_host = [''/srv/houston/config.js'', ''/etc/houston/config.js'']"
  by (simp add: configurationPaths_def bare_host_def path_resolve_def startsWith_def)

text \<open>
  Claim C10. Called without a path, when none of the well-known paths is a file (nothing
  is there, or what is there is not a regular file), \<open>getFileConfig\<close> returns the empty
  frozen configuration and raises nothing.
\<close>

theorem C10_no_file_gives_empty_config:
  assumes "\<forall>q \<in> set (configurationPaths h). statSync_isFile h q \<noteq> Inr True"
  shows "getFileConfig h None = Inr \<lparr> tree = Map.empty, immutable = True \<rparr>"
  using find_file_nothing [OF assms]
  by (simp add: getFileConfig_def config_new_def config_merge_def config_freeze_def)

text \<open>C10 on a machine where \<open>statSync\<close> finds nothing at either path.\<close>

theorem C10_no_file_gives_empty_config_witness:
  "configurationPaths bare_host = [''/srv/houston/config.js'', ''/etc/houston/config.js'']
   \<and> statSync_isFile bare_host ''/srv/houston/config.js'' = Inl ''ENOENT''
   \<and> statSync_isFile bare_host ''/etc/houston/config.js'' = Inl ''ENOENT''
   \<and> getFileConfig bare_host None = Inr \<lparr> tree = Map.empty, immutable = True \<rparr>"
proof -
  have a: "\<forall>q \<in> set (configurationPaths bare_host). statSync_isFile bare_host q \<noteq> Inr True"
    by (simp add: bare_host_def)
  have b: "statSync_isFile bare_host q = Inl ''ENOENT''" for q
    by (simp add: bare_host_def)
  from C10_no_file_gives_empty_config [OF a] configurationPaths_example b
  show ?thesis by simp
qed

text \<open>
  Claim C8. A key that the file configuration and the environment configuration both
  set has, in the merged snapshot, the value of the environment configuration; the
  snapshot is frozen.
\<close>

theorem C8_environment_overrides_file:
  assumes "getFileConfig h p = Inr file"
    and "tree file k = Some w"
    and "tree (getEnvironmentConfig process_env) k = Some v"
  shows "\<exists>c. getConfig h process_env p = Inr c \<and> tree c k = Some v \<and> immutable c"
  using assms
  by (simp add: getConfig_def config_merge_def config_new_def config_freeze_def config_get_all_def)

text \<open>
  C8 with \<open>log.level\<close> set to \<open>info\<close> by \<open>/etc/houston/config.js\<close> and to \<open>debug\<close> by
  \<open>HOUSTON_LOG_LEVEL\<close>.
\<close>

theorem C8_environment_overrides_file_witness:
  "getFileConfig etc_host None =
     Inr \<lparr> tree = [''log.level'' \<mapsto> StringValue ''info'',
                    ''server.url'' \<mapsto> StringValue ''http://localhost''],
           immutable = True \<rparr>
   \<and> tree (getEnvironmentConfig [(''HOUSTON_LOG_LEVEL'', ''debug'')]) ''log.level''
       = Some (StringValue ''debug'')
   \<and> (\<exists>c. getConfig etc_host [(''HOUSTON_LOG_LEVEL'', ''debug'')] None = Inr c
          \<and> tree c ''log.level'' = Some (StringValue ''debug'') \<and> immutable c)"
proof -
  have p: "configurationPaths etc_host = [''/srv/houston/config.js'', ''/etc/houston/config.js'']"
    by (simp add: configurationPaths_def etc_host_def path_resolve_def startsWith_def)
  have f: "getFileConfig etc_host None =
     Inr \<lparr> tree = [''log.level'' \<mapsto> StringValue ''info'',
                    ''server.url'' \<mapsto> StringValue ''http://localhost''],
           immutable = True \<rparr>"
    by (simp add: getFileConfig_def p config_new_def config_merge_def config_freeze_def)
       (simp add: etc_host_def)
  have d: "stringToDot ''HOUSTON_LOG_LEVEL'' = ''log.level''"
    by (simp add: stringToDot_def splice_js_def toLowerCase_def toLowerCase_char_def)
  have n: "Number ''debug'' = NaN"
    by (simp add: Number_def trim_def isWhiteSpace_def startsWith_def unsigned_decimal_def
          is_digit_def digit_value_def)
  have e: "tree (getEnvironmentConfig [(''HOUSTON_LOG_LEVEL'', ''debug'')]) ''log.level''
       = Some (StringValue ''debug'')"
    by (simp add: getEnvironmentConfig_def environment_variable_def d n isNaN_def
          startsWith_def environmentPrefix_def config_set_def config_new_def config_freeze_def)
  from C8_environment_overrides_file [OF f _ e, of "StringValue ''info''"] f e
  show ?thesis by simp
qed

end
